theory Spec2Isabelle
  imports Main
begin

section \<open>Values of the Go runtime and standard library\<close>

text \<open>
  The middleware only inspects three shapes of error value: a plain error
  (\<^verbatim>\<open>errors.New\<close>), an \<^verbatim>\<open>*os.SyscallError\<close> (system call name and cause) and a
  \<^verbatim>\<open>*net.OpError\<close> (operation, network and cause; source and address left nil).
  Pointers are non-nil and every cause is present, as \<^verbatim>\<open>os.NewSyscallError\<close> builds them.
\<close>

datatype go_error =
    ErrorString string
  | SyscallError string go_error
  | OpError string string go_error

text \<open>The \<^verbatim>\<open>Error()\<close> method of the three shapes.\<close>

fun Error_text :: "go_error \<Rightarrow> string" where
  "Error_text (ErrorString s) = s"
| "Error_text (SyscallError sc e) = sc @ '': '' @ Error_text e"
| "Error_text (OpError op net e) =
     op @ (if net = [] then [] else '' '' @ net) @ '': '' @ Error_text e"

text \<open>
  What \<^verbatim>\<open>recover()\<close> hands to the deferred function when it is not nil: the value given
  to \<^verbatim>\<open>panic\<close>, here a string or an error.
\<close>

datatype panic_value = PanicString string | PanicError go_error

subsection \<open>strings.ToLower and strings.Contains on ASCII text\<close>

definition lower_char :: "char \<Rightarrow> char" where
  "lower_char c =
     (let n = (of_char c :: nat)
      in if 65 \<le> n \<and> n \<le> 90 then char_of (n + 32) else c)"

definition ToLower :: "string \<Rightarrow> string" where
  "ToLower s = map lower_char s"

fun HasPrefix :: "string \<Rightarrow> string \<Rightarrow> bool" where
  "HasPrefix s [] = True"
| "HasPrefix [] (p # ps) = False"
| "HasPrefix (c # s) (p # ps) = (c = p \<and> HasPrefix s ps)"

fun Contains :: "string \<Rightarrow> string \<Rightarrow> bool" where
  "Contains [] sub = (sub = [])"
| "Contains (c # s) sub = (HasPrefix (c # s) sub \<or> Contains s sub)"

section \<open>The request context of the web framework\<close>

record url =
  Path :: string
  RawQuery :: string

record request =
  Method :: string
  URL :: url
  Header :: "(string \<times> string) list"
  Body :: string
  RemoteIP :: string

text \<open>\<^verbatim>\<open>Request.UserAgent()\<close> reads the User-Agent header, empty when absent.\<close>

definition UserAgent :: "request \<Rightarrow> string" where
  "UserAgent r = (case map_of (Header r) ''User-Agent'' of None \<Rightarrow> [] | Some v \<Rightarrow> v)"

text \<open>
  The response writer as the framework exposes it: the status \<^verbatim>\<open>Writer.Status()\<close>
  reports, whether the header has gone out, and the body bytes written so far.
\<close>

record response_writer =
  status :: int
  header_written :: bool
  body_out :: string

record "context" =
  Request :: request
  Writer :: response_writer
  Errors :: "go_error list"
  aborted :: bool

text \<open>
  \<^verbatim>\<open>c.ClientIP()\<close> resolves the peer address inside the framework; the model keeps the
  resolved address with the request.
\<close>

definition ClientIP :: "context \<Rightarrow> string" where
  "ClientIP c = RemoteIP (Request c)"

text \<open>\<^verbatim>\<open>c.Errors.Errors()\<close>: the text of every registered error, in registration order.\<close>

definition Errors_texts :: "context \<Rightarrow> string list" where
  "Errors_texts c = map Error_text (Errors c)"

text \<open>\<^verbatim>\<open>c.Error(err)\<close> appends to the error list; \<^verbatim>\<open>c.Abort()\<close> stops the chain.\<close>

definition ctx_Error :: "context \<Rightarrow> go_error \<Rightarrow> context" where
  "ctx_Error c e = c\<lparr>Errors := Errors c @ [e]\<rparr>"

definition Abort :: "context \<Rightarrow> context" where
  "Abort c = c\<lparr>aborted := True\<rparr>"

text \<open>
  \<^verbatim>\<open>c.AbortWithStatus(code)\<close> is \<^verbatim>\<open>c.Status(code); c.Writer.WriteHeaderNow(); c.Abort()\<close>:
  the writer's status becomes the code (for a positive code), and the header goes out
  if it had not yet.
\<close>

definition AbortWithStatus :: "context \<Rightarrow> int \<Rightarrow> context" where
  "AbortWithStatus c code =
     Abort (c\<lparr>Writer := (Writer c)\<lparr>status := (if code > 0 then code else status (Writer c)),
                                      header_written := True\<rparr>\<rparr>)"

text \<open>
  \<^verbatim>\<open>httputil.DumpRequest(req, body)\<close>: the request line and headers, and the body only
  when asked for. The dump is kept structured instead of as wire bytes.
\<close>

record request_dump =
  dump_method :: string
  dump_path :: string
  dump_query :: string
  dump_headers :: "(string \<times> string) list"
  dump_body :: "string option"

definition DumpRequest :: "request \<Rightarrow> bool \<Rightarrow> request_dump" where
  "DumpRequest r body =
     \<lparr>dump_method = Method r, dump_path = Path (URL r), dump_query = RawQuery (URL r),
      dump_headers = Header r, dump_body = (if body then Some (Body r) else None)\<rparr>"

section \<open>Time\<close>

text \<open>
  A \<^verbatim>\<open>time.Time\<close> is an instant (nanoseconds) with a location; \<^verbatim>\<open>time.Now()\<close> is in the
  local zone and \<^verbatim>\<open>t.UTC()\<close> moves the same instant to UTC.
\<close>

record go_time =
  instant :: int
  in_utc :: bool

definition UTC_of :: "go_time \<Rightarrow> go_time" where
  "UTC_of t = t\<lparr>in_utc := True\<rparr>"

definition Sub :: "go_time \<Rightarrow> go_time \<Rightarrow> int" where
  "Sub t u = instant t - instant u"

definition RFC3339Nano :: string where
  "RFC3339Nano = ''2006-01-02T15:04:05.999999999Z07:00''"

section \<open>The logging sink\<close>

datatype level =
  DebugLevel | InfoLevel | WarnLevel | ErrorLevel | DPanicLevel | PanicLevel | FatalLevel

text \<open>
  Field values as the middleware builds them. \<open>TimeStringV layout t\<close> stands for
  \<^verbatim>\<open>zap.String(key, t.Format(layout))\<close>, \<open>StackV\<close> for \<^verbatim>\<open>zap.ByteString(key, debug.Stack())\<close>:
  the rendering itself belongs to the standard library.
\<close>

datatype field_value =
    IntV int
  | StringV string
  | TimeStringV string go_time
  | DurationV int
  | AnyV panic_value
  | DumpV request_dump
  | StackV

type_synonym field = "string \<times> field_value"

record entry =
  Level :: level
  Message :: string
  Fields :: "field list"

text \<open>
  The sink is an injected \<^verbatim>\<open>*zap.Logger\<close>, seen through the calls the middleware makes.
  \<open>Enabled\<close> is the sink's own answer to "would a record of this level be kept";
  \<open>entries\<close> is the sequence of records the middleware has handed over, in call order.
  What the sink then does with a record is its own contract.
\<close>

record zap_logger =
  Enabled :: "level \<Rightarrow> bool"
  entries :: "entry list"

definition zap_Log :: "zap_logger \<Rightarrow> level \<Rightarrow> string \<Rightarrow> field list \<Rightarrow> zap_logger" where
  "zap_Log lg lvl msg fs = lg\<lparr>entries := entries lg @ [\<lparr>Level = lvl, Message = msg, Fields = fs\<rparr>]\<rparr>"

definition zap_Error :: "zap_logger \<Rightarrow> string \<Rightarrow> field list \<Rightarrow> zap_logger" where
  "zap_Error lg msg fs = zap_Log lg ErrorLevel msg fs"

definition zap_Info :: "zap_logger \<Rightarrow> string \<Rightarrow> field list \<Rightarrow> zap_logger" where
  "zap_Info lg msg fs = zap_Log lg InfoLevel msg fs"

text \<open>
  \<^verbatim>\<open>logger.Check(lvl, msg)\<close> returns a checked entry, or nil when the level is off;
  \<^verbatim>\<open>ce.Write(fields...)\<close> hands the entry over with its fields.
\<close>

definition zap_Check :: "zap_logger \<Rightarrow> level \<Rightarrow> string \<Rightarrow> (level \<times> string) option" where
  "zap_Check lg lvl msg = (if Enabled lg lvl then Some (lvl, msg) else None)"

definition ce_Write :: "zap_logger \<Rightarrow> level \<times> string \<Rightarrow> field list \<Rightarrow> zap_logger" where
  "ce_Write lg ce fs = zap_Log lg (fst ce) (snd ce) fs"

section \<open>Handlers\<close>

text \<open>
  Everything a handler can touch: the request context, the sink and the clock. The
  logger a constructor receives is the sink of the state. \<^verbatim>\<open>c.Next()\<close> runs the rest
  of the chain: it leaves a state behind and either returns (\<open>None\<close>) or panics with a
  value. A handler itself either returns to the framework or lets a panic through.
  A custom field function is a function of the context that yields its field.
\<close>

record state =
  Ctx :: "context"
  Zap :: zap_logger
  Clock :: int

type_synonym chain = "state \<Rightarrow> state \<times> panic_value option"

datatype outcome = Returned state | Panicked panic_value state

definition Now :: "state \<Rightarrow> go_time" where
  "Now s = \<lparr>instant = Clock s, in_utc = False\<rparr>"

section \<open>Configuration by options\<close>

record Config =
  timeFormat :: string
  utc :: bool
  customFields :: "(context \<Rightarrow> field) list"

type_synonym Option = "Config \<Rightarrow> Config"

definition WithTimeFormat :: "string \<Rightarrow> Option" where
  "WithTimeFormat layout = (\<lambda>c. c\<lparr>timeFormat := layout\<rparr>)"

definition WithUTC :: "bool \<Rightarrow> Option" where
  "WithUTC b = (\<lambda>c. c\<lparr>utc := b\<rparr>)"

definition WithCustomFields :: "(context \<Rightarrow> field) list \<Rightarrow> Option" where
  "WithCustomFields fns = (\<lambda>c. c\<lparr>customFields := fns\<rparr>)"

text \<open>Both constructors start from the same defaults and apply the options in order.\<close>

definition default_Config :: Config where
  "default_Config = \<lparr>timeFormat = RFC3339Nano, utc = False, customFields = []\<rparr>"

definition apply_opts :: "Config \<Rightarrow> Option list \<Rightarrow> Config" where
  "apply_opts cfg opts = foldl (\<lambda>c opt. opt c) cfg opts"

section \<open>The Recovery interceptor\<close>

text \<open>
  The classification at the head of the deferred function: the recovered value must be
  a \<^verbatim>\<open>*net.OpError\<close> whose \<^verbatim>\<open>Err\<close> is a \<^verbatim>\<open>*os.SyscallError\<close> whose lower-cased text
  contains one of the two phrases.
\<close>

fun brokenPipe :: "panic_value \<Rightarrow> bool" where
  "brokenPipe (PanicError (OpError op net (SyscallError sc e))) =
     (Contains (ToLower (Error_text (SyscallError sc e))) ''broken pipe'' \<or>
      Contains (ToLower (Error_text (SyscallError sc e))) ''connection reset by peer'')"
| "brokenPipe _ = False"

definition stack_field :: "context \<Rightarrow> field" where
  "stack_field c = (''stack'', StackV)"

definition Recovery_Config :: "bool \<Rightarrow> Option list \<Rightarrow> Config" where
  "Recovery_Config stack opts =
     (let cfg = apply_opts default_Config opts
      in if stack then cfg\<lparr>customFields := customFields cfg @ [stack_field]\<rparr> else cfg)"

text \<open>
  The deferred function for a recovered value \<open>err\<close>, run on the state the chain left.
  The assertion \<^verbatim>\<open>err.(error)\<close> of the broken-connection branch panics on a value that
  is not an error; that branch of the model is a panic leaving the handler.
\<close>

definition recovered :: "Config \<Rightarrow> state \<Rightarrow> panic_value \<Rightarrow> outcome" where
  "recovered cfg s err =
     (let c = Ctx s;
          httpRequest = DumpRequest (Request c) False
      in if brokenPipe err then
           (let lg = zap_Error (Zap s) (Path (URL (Request c)))
                       [(''error'', AnyV err), (''request'', DumpV httpRequest)]
            in case err of
                 PanicError e \<Rightarrow> Returned (s\<lparr>Ctx := Abort (ctx_Error c e), Zap := lg\<rparr>)
               | PanicString m \<Rightarrow>
                   Panicked (PanicError (ErrorString ''interface conversion'')) (s\<lparr>Zap := lg\<rparr>))
         else
           (let now = Now s;
                now = (if utc cfg then UTC_of now else now);
                fields = [(''time'', TimeStringV (timeFormat cfg) now),
                          (''error'', AnyV err),
                          (''request'', DumpV httpRequest)]
                         @ map (\<lambda>field. field c) (customFields cfg)
            in Returned (s\<lparr>Ctx := AbortWithStatus c 500,
                           Zap := zap_Error (Zap s) ''[Recovery from panic]'' fields\<rparr>)))"

definition Recovery :: "bool \<Rightarrow> Option list \<Rightarrow> chain \<Rightarrow> state \<Rightarrow> outcome" where
  "Recovery stack opts next s =
     (let cfg = Recovery_Config stack opts
      in case next s of
           (s1, None) \<Rightarrow> Returned s1
         | (s1, Some err) \<Rightarrow> recovered cfg s1 err)"

definition RecoveryWithZap :: "bool \<Rightarrow> chain \<Rightarrow> state \<Rightarrow> outcome" where
  "RecoveryWithZap stack = Recovery stack []"

section \<open>The access logger\<close>

text \<open>The handler built from options: no guard around \<^verbatim>\<open>c.Next()\<close>, so a panic passes through.\<close>

definition log_errors :: "zap_logger \<Rightarrow> string list \<Rightarrow> zap_logger" where
  "log_errors lg es = foldl (\<lambda>l e. zap_Error l e []) lg es"

definition Logger :: "Option list \<Rightarrow> chain \<Rightarrow> state \<Rightarrow> outcome" where
  "Logger opts next s =
     (let cfg = apply_opts default_Config opts;
          start = Now s;
          path = Path (URL (Request (Ctx s)));
          query = RawQuery (URL (Request (Ctx s)))
      in case next s of
           (s1, Some p) \<Rightarrow> Panicked p s1
         | (s1, None) \<Rightarrow>
             (let end = Now s1;
                  latency = Sub end start;
                  end = (if utc cfg then UTC_of end else end);
                  c = Ctx s1
              in if length (Errors c) > 0 then
                   Returned (s1\<lparr>Zap := log_errors (Zap s1) (Errors_texts c)\<rparr>)
                 else
                   (let fields = [(''status'', IntV (status (Writer c))),
                                  (''method'', StringV (Method (Request c))),
                                  (''path'', StringV path),
                                  (''query'', StringV query),
                                  (''ip'', StringV (ClientIP c)),
                                  (''user-agent'', StringV (UserAgent (Request c))),
                                  (''time'', TimeStringV (timeFormat cfg) end),
                                  (''latency'', DurationV latency)]
                                 @ map (\<lambda>field. field c) (customFields cfg)
                    in Returned (s1\<lparr>Zap := zap_Info (Zap s1) path fields\<rparr>))))"

text \<open>The handler for a chosen level, and its Info-level shorthand.\<close>

definition OnLevel :: "level \<Rightarrow> string \<Rightarrow> bool \<Rightarrow> chain \<Rightarrow> state \<Rightarrow> outcome" where
  "OnLevel lvl layout in_UTC next s =
     (let start = Now s;
          path = Path (URL (Request (Ctx s)))
      in case next s of
           (s1, Some p) \<Rightarrow> Panicked p s1
         | (s1, None) \<Rightarrow>
             (let end = Now s1;
                  latency = Sub end start;
                  end = (if in_UTC then UTC_of end else end);
                  c = Ctx s1
              in if length (Errors c) > 0 then
                   Returned (s1\<lparr>Zap := log_errors (Zap s1) (Errors_texts c)\<rparr>)
                 else
                   (case zap_Check (Zap s1) lvl path of
                      None \<Rightarrow> Returned s1
                    | Some ce \<Rightarrow>
                        Returned (s1\<lparr>Zap := ce_Write (Zap s1) ce
                          [(''status'', IntV (status (Writer c))),
                           (''method'', StringV (Method (Request c))),
                           (''path'', StringV path),
                           (''ip'', StringV (ClientIP c)),
                           (''user-agent'', StringV (UserAgent (Request c))),
                           (''time'', TimeStringV layout end),
                           (''latency'', DurationV latency)]\<rparr>))))"

definition Ginzap :: "string \<Rightarrow> bool \<Rightarrow> chain \<Rightarrow> state \<Rightarrow> outcome" where
  "Ginzap layout in_UTC = OnLevel InfoLevel layout in_UTC"

section \<open>The access logger, call by call\<close>

text \<open>
  The outcome of a handler does not show in which order it called the sink and the
  field constructors. Both handlers are therefore written once more with a log of
  these calls. Every call of \<^verbatim>\<open>Check\<close>, of a field constructor (\<^verbatim>\<open>zap.Int\<close>,
  \<^verbatim>\<open>zap.String\<close>, \<^verbatim>\<open>zap.Duration\<close>, a custom field function), of \<^verbatim>\<open>Write\<close>, \<^verbatim>\<open>Info\<close>
  and \<^verbatim>\<open>Error\<close> appends its step, in the order Go evaluates them: the condition of an
  \<^verbatim>\<open>if\<close> before its body, the arguments of a call from left to right before the call.
\<close>

datatype step =
    Checked level string
  | FieldBuilt string
  | Written level string "string list"
  | InfoCalled string "string list"
  | ErrorCalled string

definition check_step ::
  "zap_logger \<Rightarrow> level \<Rightarrow> string \<Rightarrow> step list \<Rightarrow> (level \<times> string) option \<times> step list" where
  "check_step lg lvl msg tr = (zap_Check lg lvl msg, tr @ [Checked lvl msg])"

fun build_fields :: "field list \<Rightarrow> step list \<Rightarrow> field list \<times> step list" where
  "build_fields [] tr = ([], tr)"
| "build_fields (f # fs) tr =
     (case build_fields fs (tr @ [FieldBuilt (fst f)]) of (gs, tr') \<Rightarrow> (f # gs, tr'))"

definition write_step ::
  "zap_logger \<Rightarrow> level \<times> string \<Rightarrow> field list \<Rightarrow> step list \<Rightarrow> zap_logger \<times> step list" where
  "write_step lg ce fs tr = (ce_Write lg ce fs, tr @ [Written (fst ce) (snd ce) (map fst fs)])"

definition info_step ::
  "zap_logger \<Rightarrow> string \<Rightarrow> field list \<Rightarrow> step list \<Rightarrow> zap_logger \<times> step list" where
  "info_step lg msg fs tr = (zap_Info lg msg fs, tr @ [InfoCalled msg (map fst fs)])"

definition error_steps ::
  "zap_logger \<Rightarrow> string list \<Rightarrow> step list \<Rightarrow> zap_logger \<times> step list" where
  "error_steps lg es tr = (log_errors lg es, tr @ map ErrorCalled es)"

text \<open>The handler for a chosen level: the check guards the field constructors and the write.\<close>

definition OnLevel_traced ::
  "level \<Rightarrow> string \<Rightarrow> bool \<Rightarrow> chain \<Rightarrow> state \<Rightarrow> outcome \<times> step list" where
  "OnLevel_traced lvl layout in_UTC next s =
     (let start = Now s;
          path = Path (URL (Request (Ctx s)))
      in case next s of
           (s1, Some p) \<Rightarrow> (Panicked p s1, [])
         | (s1, None) \<Rightarrow>
             (let end = Now s1;
                  latency = Sub end start;
                  end = (if in_UTC then UTC_of end else end);
                  c = Ctx s1
              in if length (Errors c) > 0 then
                   (case error_steps (Zap s1) (Errors_texts c) [] of
                      (lg, tr) \<Rightarrow> (Returned (s1\<lparr>Zap := lg\<rparr>), tr))
                 else
                   (case check_step (Zap s1) lvl path [] of
                      (None, tr) \<Rightarrow> (Returned s1, tr)
                    | (Some ce, tr) \<Rightarrow>
                        (case build_fields
                                [(''status'', IntV (status (Writer c))),
                                 (''method'', StringV (Method (Request c))),
                                 (''path'', StringV path),
                                 (''ip'', StringV (ClientIP c)),
                                 (''user-agent'', StringV (UserAgent (Request c))),
                                 (''time'', TimeStringV layout end),
                                 (''latency'', DurationV latency)] tr of
                           (fs, tr) \<Rightarrow>
                             (case write_step (Zap s1) ce fs tr of
                                (lg, tr) \<Rightarrow> (Returned (s1\<lparr>Zap := lg\<rparr>), tr))))))"

text \<open>
  The handler built from options: the eight constructors, then the custom field
  functions, then \<^verbatim>\<open>Info\<close>, with no check in between.
\<close>

definition Logger_traced :: "Option list \<Rightarrow> chain \<Rightarrow> state \<Rightarrow> outcome \<times> step list" where
  "Logger_traced opts next s =
     (let cfg = apply_opts default_Config opts;
          start = Now s;
          path = Path (URL (Request (Ctx s)));
          query = RawQuery (URL (Request (Ctx s)))
      in case next s of
           (s1, Some p) \<Rightarrow> (Panicked p s1, [])
         | (s1, None) \<Rightarrow>
             (let end = Now s1;
                  latency = Sub end start;
                  end = (if utc cfg then UTC_of end else end);
                  c = Ctx s1
              in if length (Errors c) > 0 then
                   (case error_steps (Zap s1) (Errors_texts c) [] of
                      (lg, tr) \<Rightarrow> (Returned (s1\<lparr>Zap := lg\<rparr>), tr))
                 else
                   (case build_fields
                           [(''status'', IntV (status (Writer c))),
                            (''method'', StringV (Method (Request c))),
                            (''path'', StringV path),
                            (''query'', StringV query),
                            (''ip'', StringV (ClientIP c)),
                            (''user-agent'', StringV (UserAgent (Request c))),
                            (''time'', TimeStringV (timeFormat cfg) end),
                            (''latency'', DurationV latency)] [] of
                      (fixed, tr) \<Rightarrow>
                        (case build_fields (map (\<lambda>field. field c) (customFields cfg)) tr of
                           (custom, tr) \<Rightarrow>
                             (case info_step (Zap s1) path (fixed @ custom) tr of
                                (lg, tr) \<Rightarrow> (Returned (s1\<lparr>Zap := lg\<rparr>), tr))))))"

section \<open>The access logger with a configuration value\<close>

text \<open>
  Modelled from the spec: the configuration value with skip paths, skip patterns, a
  skipper predicate, a default level, error aggregation, custom fields and a context
  function. Only its tests and README examples are part of the sources at hand. A
  pattern is kept as its match predicate on strings.
\<close>

record LogConfig =
  TimeFormat :: string
  UTC :: bool
  SkipPaths :: "string list"
  SkipPathRegexps :: "(string \<Rightarrow> bool) list"
  Skipper :: "(context \<Rightarrow> bool) option"
  DefaultLevel :: level
  LogErrorsOnce :: bool
  CustomFields :: "(context \<Rightarrow> field) list"
  Context :: "(context \<Rightarrow> field list) option"

text \<open>
  Modelled from the spec: the skip decision. The skipper predicate is set and true on
  the context, or the path equals an entry of the skip paths, or the path matches one
  of the skip patterns.
\<close>

definition skip_request :: "LogConfig \<Rightarrow> context \<Rightarrow> string \<Rightarrow> bool" where
  "skip_request conf c path =
     ((case Skipper conf of None \<Rightarrow> False | Some p \<Rightarrow> p c) \<or>
      path \<in> set (SkipPaths conf) \<or>
      list_ex (\<lambda>r. r path) (SkipPathRegexps conf))"

text \<open>
  Modelled from the spec: the two-digit index of an aggregated error, as its decimal
  digits with a leading zero below ten.
\<close>

definition digit_char :: "nat \<Rightarrow> char" where
  "digit_char d = char_of (48 + d)"

fun decimal :: "nat \<Rightarrow> string" where
  "decimal n = (if n < 10 then [digit_char n] else decimal (n div 10) @ [digit_char (n mod 10)])"

declare decimal.simps [simp del]

definition index2 :: "nat \<Rightarrow> string" where
  "index2 n = (if n < 10 then CHR ''0'' # decimal n else decimal n)"

text \<open>
  Modelled from the spec: the message of the aggregated error record, built error by
  error with a running index that starts at 1.
\<close>

fun errors_once_from :: "nat \<Rightarrow> string list \<Rightarrow> string" where
  "errors_once_from i [] = []"
| "errors_once_from i (e # es) =
     ''Error #'' @ index2 i @ '': '' @ e @ [CHR 0x0A] @ errors_once_from (Suc i) es"

text \<open>Modelled from the spec: the aggregated message, with the index starting at 01.\<close>

definition errors_once_message :: "string list \<Rightarrow> string" where
  "errors_once_message es = errors_once_from 1 es"

text \<open>
  Modelled from the spec: the handler. Path and query are captured and the skip
  decision taken before the chain runs; a panic of the chain passes through; then
  nothing for a skipped request, the error branch (per error, or aggregated), or the
  success record at the default level.
\<close>

definition GinzapWithConfig :: "LogConfig \<Rightarrow> chain \<Rightarrow> state \<Rightarrow> outcome" where
  "GinzapWithConfig conf next s =
     (let start = Now s;
          path = Path (URL (Request (Ctx s)));
          query = RawQuery (URL (Request (Ctx s)));
          skip = skip_request conf (Ctx s) path
      in case next s of
           (s1, Some p) \<Rightarrow> Panicked p s1
         | (s1, None) \<Rightarrow>
             if skip then Returned s1
             else
               (let end = Now s1;
                    latency = Sub end start;
                    end = (if UTC conf then UTC_of end else end);
                    c = Ctx s1
                in if Errors c \<noteq> [] then
                     (if LogErrorsOnce conf then
                        Returned (s1\<lparr>Zap := zap_Error (Zap s1)
                                                (errors_once_message (Errors_texts c)) []\<rparr>)
                      else Returned (s1\<lparr>Zap := log_errors (Zap s1) (Errors_texts c)\<rparr>))
                   else
                     (let fields = [(''status'', IntV (status (Writer c))),
                                    (''method'', StringV (Method (Request c))),
                                    (''path'', StringV path),
                                    (''query'', StringV query),
                                    (''ip'', StringV (ClientIP c)),
                                    (''user-agent'', StringV (UserAgent (Request c))),
                                    (''time'', TimeStringV (TimeFormat conf) end),
                                    (''latency'', DurationV latency)]
                                   @ map (\<lambda>field. field c) (CustomFields conf)
                                   @ (case Context conf of None \<Rightarrow> [] | Some f \<Rightarrow> f c)
                      in Returned (s1\<lparr>Zap := zap_Log (Zap s1) (DefaultLevel conf) path fields\<rparr>))))"

section \<open>Sample requests and chains\<close>

definition RFC3339 :: string where
  "RFC3339 = ''2006-01-02T15:04:05Z07:00''"

definition sample_request :: request where
  "sample_request =
     \<lparr>Method = ''GET'', URL = \<lparr>Path = ''/test'', RawQuery = ''a=1''\<rparr>,
      Header = [(''User-Agent'', ''curl'')], Body = ''payload'', RemoteIP = ''192.0.2.1''\<rparr>"

definition sample_context :: "context" where
  "sample_context =
     \<lparr>Request = sample_request,
      Writer = \<lparr>status = 200, header_written = False, body_out = []\<rparr>,
      Errors = [], aborted = False\<rparr>"

text \<open>A sink that keeps Info and above, as the observer of the tests does.\<close>

definition info_sink :: zap_logger where
  "info_sink = \<lparr>Enabled = (\<lambda>l. l \<noteq> DebugLevel), entries = []\<rparr>"

text \<open>A sink that keeps Error and above only.\<close>

definition error_sink :: zap_logger where
  "error_sink = \<lparr>Enabled = (\<lambda>l. l \<noteq> DebugLevel \<and> l \<noteq> InfoLevel \<and> l \<noteq> WarnLevel), entries = []\<rparr>"

definition sample_state :: state where
  "sample_state = \<lparr>Ctx = sample_context, Zap = info_sink, Clock = 1000\<rparr>"

definition quiet_state :: state where
  "quiet_state = \<lparr>Ctx = sample_context, Zap = error_sink, Clock = 1000\<rparr>"

text \<open>A chain that answers 204 after five time units.\<close>

definition chain_ok :: chain where
  "chain_ok s =
     (s\<lparr>Ctx := (Ctx s)\<lparr>Writer := \<lparr>status = 204, header_written = True, body_out = []\<rparr>\<rparr>,
        Clock := Clock s + 5\<rparr>, None)"

text \<open>A chain that rewrites the path and the query of the live request, then answers 204.\<close>

definition chain_rewrite :: chain where
  "chain_rewrite s =
     (s\<lparr>Ctx := (Ctx s)\<lparr>Request := (Request (Ctx s))\<lparr>URL := \<lparr>Path = ''/internal'', RawQuery = []\<rparr>\<rparr>,
                        Writer := \<lparr>status = 204, header_written = True, body_out = []\<rparr>\<rparr>,
        Clock := Clock s + 5\<rparr>, None)"

text \<open>A chain that registers two errors and answers 500.\<close>

definition chain_errors :: chain where
  "chain_errors s =
     (s\<lparr>Ctx := (Ctx s)\<lparr>Errors := Errors (Ctx s) @ [ErrorString ''error1'', ErrorString ''error2''],
                        Writer := \<lparr>status = 500, header_written = True, body_out = ''null''\<rparr>\<rparr>,
        Clock := Clock s + 5\<rparr>, None)"

text \<open>Chains that panic: with a plain message, and with a write on a closed connection.\<close>

definition chain_boom :: chain where
  "chain_boom s = (s\<lparr>Clock := Clock s + 5\<rparr>, Some (PanicString ''boom''))"

definition broken_pipe_error :: go_error where
  "broken_pipe_error = OpError ''write'' ''tcp'' (SyscallError ''write'' (ErrorString ''Broken pipe''))"

definition chain_broken_pipe :: chain where
  "chain_broken_pipe s = (s\<lparr>Clock := Clock s + 5\<rparr>, Some (PanicError broken_pipe_error))"

definition request_id_field :: "context \<Rightarrow> field" where
  "request_id_field c = (''request_id'', StringV ''1234'')"

text \<open>The states the sample chains leave behind.\<close>

definition after_ok :: "zap_logger \<Rightarrow> state" where
  "after_ok lg =
     \<lparr>Ctx = sample_context\<lparr>Writer := \<lparr>status = 204, header_written = True, body_out = []\<rparr>\<rparr>,
      Zap = lg, Clock = 1005\<rparr>"

definition after_rewrite :: state where
  "after_rewrite =
     \<lparr>Ctx = sample_context\<lparr>Request := sample_request\<lparr>URL := \<lparr>Path = ''/internal'', RawQuery = []\<rparr>\<rparr>,
                           Writer := \<lparr>status = 204, header_written = True, body_out = []\<rparr>\<rparr>,
      Zap = info_sink, Clock = 1005\<rparr>"

text \<open>A configuration value, a request to a path that is not to be logged, and ways to skip it.\<close>

definition sample_config :: LogConfig where
  "sample_config =
     \<lparr>TimeFormat = RFC3339, UTC = True, SkipPaths = [], SkipPathRegexps = [], Skipper = None,
      DefaultLevel = InfoLevel, LogErrorsOnce = False, CustomFields = [], Context = None\<rparr>"

definition no_log_state :: state where
  "no_log_state =
     \<lparr>Ctx = sample_context\<lparr>Request := sample_request\<lparr>URL := \<lparr>Path = ''/no_log'', RawQuery = []\<rparr>\<rparr>\<rparr>,
      Zap = info_sink, Clock = 1000\<rparr>"

definition no_log_skipper :: "context \<Rightarrow> bool" where
  "no_log_skipper c = (Path (URL (Request c)) = ''/no_log'')"

definition no_prefix_pattern :: "string \<Rightarrow> bool" where
  "no_prefix_pattern p = HasPrefix p ''/no_''"

definition after_errors :: state where
  "after_errors =
     \<lparr>Ctx = sample_context\<lparr>Errors := [ErrorString ''error1'', ErrorString ''error2''],
                           Writer := \<lparr>status = 500, header_written = True, body_out = ''null''\<rparr>\<rparr>,
      Zap = info_sink, Clock = 1005\<rparr>"

section \<open>Facts about the building blocks\<close>

lemma brokenPipe_is_error: "brokenPipe err \<Longrightarrow> \<exists>e. err = PanicError e"
  by (cases err rule: brokenPipe.cases) auto

lemma brokenPipe_shape:
  "brokenPipe err \<longleftrightarrow>
     (\<exists>op net sc e. err = PanicError (OpError op net (SyscallError sc e)) \<and>
        (Contains (ToLower (Error_text (SyscallError sc e))) ''broken pipe'' \<or>
         Contains (ToLower (Error_text (SyscallError sc e))) ''connection reset by peer''))"
  by (cases err rule: brokenPipe.cases) auto

lemma HasPrefix_iff: "HasPrefix s p \<longleftrightarrow> (\<exists>q. s = p @ q)"
  by (induction s p rule: HasPrefix.induct) auto

lemma Contains_iff: "Contains s sub \<longleftrightarrow> (\<exists>p q. s = p @ sub @ q)"
proof (induction s)
  case Nil
  then show ?case by auto
next
  case (Cons c s)
  show ?case
  proof
    assume "Contains (c # s) sub"
    then consider "HasPrefix (c # s) sub" | "Contains s sub" by auto
    then show "\<exists>p q. c # s = p @ sub @ q"
    proof cases
      case 1
      then obtain q where "c # s = sub @ q" by (auto simp: HasPrefix_iff)
      then have "c # s = [] @ sub @ q" by simp
      then show ?thesis by blast
    next
      case 2
      then obtain p q where "s = p @ sub @ q" using Cons.IH by blast
      then have "c # s = (c # p) @ sub @ q" by simp
      then show ?thesis by blast
    qed
  next
    assume "\<exists>p q. c # s = p @ sub @ q"
    then obtain p q where pq: "c # s = p @ sub @ q" by blast
    show "Contains (c # s) sub"
    proof (cases p)
      case Nil
      with pq have "HasPrefix (c # s) sub" by (auto simp: HasPrefix_iff)
      then show ?thesis by simp
    next
      case (Cons a p')
      with pq have "s = p' @ sub @ q" by simp
      then have "Contains s sub" using Cons.IH by blast
      then show ?thesis by simp
    qed
  qed
qed

lemma recovered_generic:
  "\<not> brokenPipe err \<Longrightarrow>
   recovered cfg s err =
     Returned (s\<lparr>Ctx := AbortWithStatus (Ctx s) 500,
                 Zap := zap_Error (Zap s) ''[Recovery from panic]''
                   ([(''time'', TimeStringV (timeFormat cfg) (if utc cfg then UTC_of (Now s) else Now s)),
                     (''error'', AnyV err),
                     (''request'', DumpV (DumpRequest (Request (Ctx s)) False))]
                    @ map (\<lambda>field. field (Ctx s)) (customFields cfg))\<rparr>)"
  by (simp add: recovered_def Let_def)

lemma recovered_broken:
  "brokenPipe (PanicError e) \<Longrightarrow>
   recovered cfg s (PanicError e) =
     Returned (s\<lparr>Ctx := Abort (ctx_Error (Ctx s) e),
                 Zap := zap_Error (Zap s) (Path (URL (Request (Ctx s))))
                   [(''error'', AnyV (PanicError e)),
                    (''request'', DumpV (DumpRequest (Request (Ctx s)) False))]\<rparr>)"
  by (simp add: recovered_def Let_def)

lemma entries_zap_Log: "entries (zap_Log lg lvl msg fs) = entries lg @ [\<lparr>Level = lvl, Message = msg, Fields = fs\<rparr>]"
  by (simp add: zap_Log_def)

lemma customFields_Recovery_Config:
  "customFields (Recovery_Config stack opts) =
     customFields (apply_opts default_Config opts) @ (if stack then [stack_field] else [])"
  by (simp add: Recovery_Config_def Let_def)

lemma Recovery_Config_time:
  "timeFormat (Recovery_Config stack opts) = timeFormat (apply_opts default_Config opts)"
  "utc (Recovery_Config stack opts) = utc (apply_opts default_Config opts)"
  by (simp_all add: Recovery_Config_def Let_def)

lemma Logger_lets_panic_through:
  "next s = (s1, Some p) \<Longrightarrow> Logger opts next s = Panicked p s1"
  by (simp add: Logger_def Let_def)

lemma OnLevel_lets_panic_through:
  "next s = (s1, Some p) \<Longrightarrow> OnLevel lvl layout u next s = Panicked p s1"
  by (simp add: OnLevel_def Let_def)

lemma recovered_returns: "\<exists>s'. recovered cfg s err = Returned s'"
proof (cases "brokenPipe err")
  case True
  then obtain e where "err = PanicError e" using brokenPipe_is_error by blast
  with True show ?thesis by (simp add: recovered_broken)
next
  case False
  then show ?thesis by (simp add: recovered_generic)
qed

lemma log_errors_eq:
  "log_errors lg es =
     lg\<lparr>entries := entries lg @ map (\<lambda>e. \<lparr>Level = ErrorLevel, Message = e, Fields = []\<rparr>) es\<rparr>"
proof (induction es arbitrary: lg)
  case Nil
  then show ?case by (simp add: log_errors_def)
next
  case (Cons e es)
  have "log_errors lg (e # es) = log_errors (zap_Error lg e []) es"
    by (simp add: log_errors_def)
  also have "\<dots> = lg\<lparr>entries := entries lg @
      map (\<lambda>e. \<lparr>Level = ErrorLevel, Message = e, Fields = []\<rparr>) (e # es)\<rparr>"
    by (simp add: Cons.IH zap_Error_def zap_Log_def)
  finally show ?case .
qed

lemma Logger_success:
  assumes "next s = (s1, None)" and "Errors (Ctx s1) = []"
  shows "Logger opts next s =
           Returned (s1\<lparr>Zap := (Zap s1)\<lparr>entries := entries (Zap s1) @
             [\<lparr>Level = InfoLevel, Message = Path (URL (Request (Ctx s))),
               Fields = [(''status'', IntV (status (Writer (Ctx s1)))),
                         (''method'', StringV (Method (Request (Ctx s1)))),
                         (''path'', StringV (Path (URL (Request (Ctx s))))),
                         (''query'', StringV (RawQuery (URL (Request (Ctx s))))),
                         (''ip'', StringV (ClientIP (Ctx s1))),
                         (''user-agent'', StringV (UserAgent (Request (Ctx s1)))),
                         (''time'', TimeStringV (timeFormat (apply_opts default_Config opts))
                                      (if utc (apply_opts default_Config opts)
                                       then UTC_of (Now s1) else Now s1)),
                         (''latency'', DurationV (Sub (Now s1) (Now s)))]
                        @ map (\<lambda>field. field (Ctx s1))
                            (customFields (apply_opts default_Config opts))\<rparr>]\<rparr>\<rparr>)"
  using assms by (simp add: Logger_def Let_def zap_Info_def zap_Log_def)

lemma OnLevel_success:
  assumes "next s = (s1, None)" and "Errors (Ctx s1) = []"
  shows "OnLevel lvl layout in_UTC next s =
           (if Enabled (Zap s1) lvl then
              Returned (s1\<lparr>Zap := (Zap s1)\<lparr>entries := entries (Zap s1) @
                [\<lparr>Level = lvl, Message = Path (URL (Request (Ctx s))),
                  Fields = [(''status'', IntV (status (Writer (Ctx s1)))),
                            (''method'', StringV (Method (Request (Ctx s1)))),
                            (''path'', StringV (Path (URL (Request (Ctx s))))),
                            (''ip'', StringV (ClientIP (Ctx s1))),
                            (''user-agent'', StringV (UserAgent (Request (Ctx s1)))),
                            (''time'', TimeStringV layout
                                         (if in_UTC then UTC_of (Now s1) else Now s1)),
                            (''latency'', DurationV (Sub (Now s1) (Now s)))]\<rparr>]\<rparr>\<rparr>)
            else Returned s1)"
  using assms by (simp add: OnLevel_def Let_def zap_Check_def ce_Write_def zap_Log_def)

lemma chain_ok_sample: "chain_ok sample_state = (after_ok info_sink, None)"
  by (simp add: chain_ok_def sample_state_def after_ok_def)

lemma chain_ok_quiet: "chain_ok quiet_state = (after_ok error_sink, None)"
  by (simp add: chain_ok_def quiet_state_def after_ok_def)

lemma chain_rewrite_sample: "chain_rewrite sample_state = (after_rewrite, None)"
  by (simp add: chain_rewrite_def sample_state_def after_rewrite_def sample_context_def)

lemma after_ok_facts:
  "Errors (Ctx (after_ok lg)) = []"
  "Zap (after_ok lg) = lg"
  "Ctx (after_ok lg) = sample_context\<lparr>Writer := \<lparr>status = 204, header_written = True, body_out = []\<rparr>\<rparr>"
  by (simp_all add: after_ok_def sample_context_def)

lemma chain_errors_sample: "chain_errors sample_state = (after_errors, None)"
  by (simp add: chain_errors_def sample_state_def after_errors_def sample_context_def)

lemma skip_request_iff:
  "skip_request conf c path \<longleftrightarrow>
     ((\<exists>p. Skipper conf = Some p \<and> p c) \<or> path \<in> set (SkipPaths conf) \<or>
      (\<exists>r \<in> set (SkipPathRegexps conf). r path))"
  by (auto simp: skip_request_def list_ex_iff split: option.splits)

lemma errors_once_from_concat:
  "errors_once_from i es =
     concat (map (\<lambda>(j, e). ''Error #'' @ index2 j @ '': '' @ e @ [CHR 0x0A])
                 (zip [i..<i + length es] es))"
proof (induction es arbitrary: i)
  case Nil
  then show ?case by simp
next
  case (Cons e es)
  have "[i..<i + length (e # es)] = i # [Suc i..<Suc i + length es]"
    using upt_conv_Cons [of i "i + length (e # es)"] by simp
  then show ?case using Cons.IH [of "Suc i"] by simp
qed

lemma index2_two_digits: "i < 100 \<Longrightarrow> length (index2 i) = 2"
proof -
  assume "i < 100"
  then have "i div 10 < 10" by simp
  then show ?thesis
    by (simp add: index2_def decimal.simps [of i] decimal.simps [of "i div 10"])
qed

lemma build_fields_eq: "build_fields fs tr = (fs, tr @ map (\<lambda>f. FieldBuilt (fst f)) fs)"
  by (induction fs arbitrary: tr) simp_all

lemma OnLevel_traced_outcome:
  "fst (OnLevel_traced lvl layout in_UTC next s) = OnLevel lvl layout in_UTC next s"
  by (simp add: OnLevel_traced_def OnLevel_def Let_def check_step_def build_fields_eq
      write_step_def error_steps_def split: prod.splits option.splits)

lemma Logger_traced_outcome:
  "fst (Logger_traced opts next s) = Logger opts next s"
  by (simp add: Logger_traced_def Logger_def Let_def build_fields_eq info_step_def
      error_steps_def split: prod.splits option.splits)


lemma Logger_traced_success:
  assumes "next s = (s1, None)" and "Errors (Ctx s1) = []"
  shows "snd (Logger_traced opts next s) =
           map (\<lambda>f. FieldBuilt (fst f))
             ([(''status'', IntV (status (Writer (Ctx s1)))),
               (''method'', StringV (Method (Request (Ctx s1)))),
               (''path'', StringV (Path (URL (Request (Ctx s))))),
               (''query'', StringV (RawQuery (URL (Request (Ctx s))))),
               (''ip'', StringV (ClientIP (Ctx s1))),
               (''user-agent'', StringV (UserAgent (Request (Ctx s1)))),
               (''time'', TimeStringV (timeFormat (apply_opts default_Config opts))
                            (if utc (apply_opts default_Config opts)
                             then UTC_of (Now s1) else Now s1)),
               (''latency'', DurationV (Sub (Now s1) (Now s)))]
              @ map (\<lambda>field. field (Ctx s1)) (customFields (apply_opts default_Config opts)))
           @ [InfoCalled (Path (URL (Request (Ctx s))))
                ([''status'', ''method'', ''path'', ''query'', ''ip'', ''user-agent'', ''time'',
                  ''latency'']
                 @ map (\<lambda>field. fst (field (Ctx s1)))
                     (customFields (apply_opts default_Config opts)))]"
  using assms
  by (simp add: Logger_traced_def Let_def build_fields_eq info_step_def comp_def)

section \<open>The Recovery interceptor: properties\<close>

text \<open>
  Claim C1. When the chain panics with a value that is not classified as a broken
  connection, Recovery returns to the framework having handed the sink exactly one more
  record: Error level, message \<^verbatim>\<open>[Recovery from panic]\<close>, fields time, error (the
  panic value) and request (the dump without the body), then the custom fields of the
  options in order, then the stack field when stack capture is on. The writer's status
  is 500 and the context is aborted.
\<close>

theorem Recovery_generic_panic:
  assumes "next s = (s1, Some err)" and "\<not> brokenPipe err"
  shows "\<exists>s'. Recovery stack opts next s = Returned s' \<and>
           entries (Zap s') = entries (Zap s1) @
             [\<lparr>Level = ErrorLevel, Message = ''[Recovery from panic]'',
               Fields = [(''time'', TimeStringV (timeFormat (apply_opts default_Config opts))
                                      (if utc (apply_opts default_Config opts)
                                       then UTC_of (Now s1) else Now s1)),
                         (''error'', AnyV err),
                         (''request'', DumpV (DumpRequest (Request (Ctx s1)) False))]
                        @ map (\<lambda>field. field (Ctx s1)) (customFields (apply_opts default_Config opts))
                        @ (if stack then [(''stack'', StackV)] else [])\<rparr>] \<and>
           dump_body (DumpRequest (Request (Ctx s1)) False) = None \<and>
           status (Writer (Ctx s')) = 500 \<and> aborted (Ctx s')"
  using assms
  by (simp add: Recovery_def Let_def recovered_generic zap_Error_def entries_zap_Log
      customFields_Recovery_Config Recovery_Config_time AbortWithStatus_def Abort_def
      DumpRequest_def stack_field_def)

theorem Recovery_generic_panic_witness:
  "chain_boom sample_state = (sample_state\<lparr>Clock := 1005\<rparr>, Some (PanicString ''boom'')) \<and>
   \<not> brokenPipe (PanicString ''boom'') \<and>
   (\<exists>s'. Recovery True [WithUTC True, WithCustomFields [request_id_field]] chain_boom sample_state = Returned s' \<and>
      entries (Zap s') =
        [\<lparr>Level = ErrorLevel, Message = ''[Recovery from panic]'',
          Fields = [(''time'', TimeStringV RFC3339Nano \<lparr>instant = 1005, in_utc = True\<rparr>),
                    (''error'', AnyV (PanicString ''boom'')),
                    (''request'', DumpV \<lparr>dump_method = ''GET'', dump_path = ''/test'', dump_query = ''a=1'',
                                         dump_headers = [(''User-Agent'', ''curl'')], dump_body = None\<rparr>),
                    (''request_id'', StringV ''1234''),
                    (''stack'', StackV)]\<rparr>] \<and>
      status (Writer (Ctx s')) = 500 \<and> aborted (Ctx s'))"
proof -
  have a: "chain_boom sample_state = (sample_state\<lparr>Clock := 1005\<rparr>, Some (PanicString ''boom''))"
    by (simp add: chain_boom_def sample_state_def)
  have b: "\<not> brokenPipe (PanicString ''boom'')" by simp
  show ?thesis
    using Recovery_generic_panic [where ?next = chain_boom and s = sample_state
        and ?s1.0 = "sample_state\<lparr>Clock := 1005\<rparr>" and err = "PanicString ''boom''"
        and stack = True and opts = "[WithUTC True, WithCustomFields [request_id_field]]"] a b
    by (simp add: apply_opts_def default_Config_def WithUTC_def WithCustomFields_def
        request_id_field_def sample_state_def sample_context_def sample_request_def info_sink_def
        Now_def UTC_of_def DumpRequest_def)
qed

text \<open>
  Claim C2. Whatever the chain does, Recovery returns to the framework: a panic of the
  chain never leaves the handler, in the broken-connection branch (where the assertion
  \<^verbatim>\<open>err.(error)\<close> cannot fail, the value being an error) as in the generic one. The
  access logger, which has no guard, lets the same panic through.
\<close>

theorem Recovery_never_repanics:
  "\<exists>s'. Recovery stack opts next s = Returned s'"
proof (cases "next s")
  case (Pair s1 r)
  show ?thesis
  proof (cases r)
    case None
    with Pair show ?thesis by (simp add: Recovery_def Let_def)
  next
    case (Some err)
    obtain s' where "recovered (Recovery_Config stack opts) s1 err = Returned s'"
      using recovered_returns by blast
    with Pair Some show ?thesis by (simp add: Recovery_def Let_def)
  qed
qed

theorem Recovery_never_repanics_witness:
  "(\<exists>s'. Recovery False [] chain_boom sample_state = Returned s') \<and>
   (\<exists>s'. Recovery False [] chain_broken_pipe sample_state = Returned s') \<and>
   Logger [] chain_boom sample_state = Panicked (PanicString ''boom'') (sample_state\<lparr>Clock := 1005\<rparr>)"
  using Recovery_never_repanics [of False "[]" chain_boom sample_state]
        Recovery_never_repanics [of False "[]" chain_broken_pipe sample_state]
  by (simp add: Logger_def Let_def chain_boom_def sample_state_def)

text \<open>
  Claim C7. When the chain panics with a value classified as a broken connection,
  Recovery hands the sink exactly one more record (Error level, message the request
  path, fields error and request), registers the panic value as an error of the
  request, aborts, and leaves the response writer as the chain left it.
\<close>

theorem Recovery_broken_pipe:
  assumes "next s = (s1, Some err)" and "brokenPipe err"
  shows "\<exists>e s'. err = PanicError e \<and> Recovery stack opts next s = Returned s' \<and>
           entries (Zap s') = entries (Zap s1) @
             [\<lparr>Level = ErrorLevel, Message = Path (URL (Request (Ctx s1))),
               Fields = [(''error'', AnyV err),
                         (''request'', DumpV (DumpRequest (Request (Ctx s1)) False))]\<rparr>] \<and>
           Errors (Ctx s') = Errors (Ctx s1) @ [e] \<and>
           aborted (Ctx s') \<and>
           Writer (Ctx s') = Writer (Ctx s1) \<and>
           Request (Ctx s') = Request (Ctx s1)"
proof -
  obtain e where e: "err = PanicError e" using assms(2) brokenPipe_is_error by blast
  with assms show ?thesis
    by (simp add: Recovery_def Let_def recovered_broken zap_Error_def entries_zap_Log
        Abort_def ctx_Error_def)
qed

theorem Recovery_broken_pipe_witness:
  "chain_broken_pipe sample_state = (sample_state\<lparr>Clock := 1005\<rparr>, Some (PanicError broken_pipe_error)) \<and>
   brokenPipe (PanicError broken_pipe_error) \<and>
   (\<exists>s'. Recovery True [] chain_broken_pipe sample_state = Returned s' \<and>
      entries (Zap s') =
        [\<lparr>Level = ErrorLevel, Message = ''/test'',
          Fields = [(''error'', AnyV (PanicError broken_pipe_error)),
                    (''request'', DumpV \<lparr>dump_method = ''GET'', dump_path = ''/test'', dump_query = ''a=1'',
                                         dump_headers = [(''User-Agent'', ''curl'')], dump_body = None\<rparr>)]\<rparr>] \<and>
      Errors (Ctx s') = [broken_pipe_error] \<and> aborted (Ctx s') \<and>
      Writer (Ctx s') = \<lparr>status = 200, header_written = False, body_out = []\<rparr>)"
proof -
  have a: "chain_broken_pipe sample_state = (sample_state\<lparr>Clock := 1005\<rparr>, Some (PanicError broken_pipe_error))"
    by (simp add: chain_broken_pipe_def sample_state_def)
  have b: "brokenPipe (PanicError broken_pipe_error)"
    by code_simp
  show ?thesis
    using Recovery_broken_pipe [where ?next = chain_broken_pipe and s = sample_state
        and ?s1.0 = "sample_state\<lparr>Clock := 1005\<rparr>" and err = "PanicError broken_pipe_error"
        and stack = True and opts = "[]"] a b
    by (auto simp add: sample_state_def sample_context_def sample_request_def info_sink_def
        DumpRequest_def)
qed

text \<open>
  Claim C10. A recovered value is classified as a broken connection exactly when it is
  an OpError whose cause is a SyscallError whose lower-cased text contains
  \<^verbatim>\<open>broken pipe\<close> or \<^verbatim>\<open>connection reset by peer\<close>. A plain string, a plain error, a bare
  SyscallError and an OpError with another cause are not, whatever their text; every
  value that is not classified takes the generic branch, which ends with status 500.
\<close>

theorem brokenPipe_classification:
  "(brokenPipe err \<longleftrightarrow>
      (\<exists>op net sc e. err = PanicError (OpError op net (SyscallError sc e)) \<and>
         (Contains (ToLower (Error_text (SyscallError sc e))) ''broken pipe'' \<or>
          Contains (ToLower (Error_text (SyscallError sc e))) ''connection reset by peer''))) \<and>
   \<not> brokenPipe (PanicString m) \<and>
   \<not> brokenPipe (PanicError (ErrorString m)) \<and>
   \<not> brokenPipe (PanicError (SyscallError sc' e')) \<and>
   \<not> brokenPipe (PanicError (OpError op' net' (ErrorString m))) \<and>
   \<not> brokenPipe (PanicError (OpError op' net' (OpError op'' net'' e'))) \<and>
   (next s = (s1, Some err) \<and> \<not> brokenPipe err \<longrightarrow>
      (\<exists>s'. Recovery stack opts next s = Returned s' \<and>
         status (Writer (Ctx s')) = 500 \<and>
         Message (last (entries (Zap s'))) = ''[Recovery from panic]''))"
proof -
  have gen: "next s = (s1, Some err) \<and> \<not> brokenPipe err \<longrightarrow>
      (\<exists>s'. Recovery stack opts next s = Returned s' \<and>
         status (Writer (Ctx s')) = 500 \<and>
         Message (last (entries (Zap s'))) = ''[Recovery from panic]'')"
    by (simp add: Recovery_def Let_def recovered_generic zap_Error_def entries_zap_Log
        AbortWithStatus_def Abort_def)
  show ?thesis using brokenPipe_shape [of err] gen by simp
qed

theorem brokenPipe_classification_witness:
  "brokenPipe (PanicError (OpError ''read'' ''tcp'' (SyscallError ''read'' (ErrorString ''Connection Reset By Peer'')))) \<and>
   \<not> brokenPipe (PanicString ''broken pipe'') \<and>
   \<not> brokenPipe (PanicError (ErrorString ''write: broken pipe'')) \<and>
   chain_boom sample_state = (sample_state\<lparr>Clock := 1005\<rparr>, Some (PanicString ''boom'')) \<and>
   (\<exists>s'. Recovery False [] chain_boom sample_state = Returned s' \<and>
         status (Writer (Ctx s')) = 500 \<and>
         Message (last (entries (Zap s'))) = ''[Recovery from panic]'')"
proof -
  have a: "chain_boom sample_state = (sample_state\<lparr>Clock := 1005\<rparr>, Some (PanicString ''boom''))"
    by (simp add: chain_boom_def sample_state_def)
  have b: "brokenPipe (PanicError (OpError ''read'' ''tcp'' (SyscallError ''read'' (ErrorString ''Connection Reset By Peer''))))"
    by code_simp
  show ?thesis
    using brokenPipe_classification [where ?next = chain_boom and s = sample_state
        and ?s1.0 = "sample_state\<lparr>Clock := 1005\<rparr>" and err = "PanicString ''boom''"
        and stack = False and opts = "[]"] a b
    by simp
qed

section \<open>The access logger: properties\<close>

text \<open>
  Claim C6. When the chain returns with a non-empty error list, both handlers (the one
  built from options and the one for a chosen level) hand the sink one Error record
  per registered error, in registration order, each with the error's text as message
  and no fields, and nothing else: no success record.
\<close>

theorem errors_logged_one_by_one:
  assumes "next s = (s1, None)" and "Errors (Ctx s1) \<noteq> []"
  shows "Logger opts next s =
           Returned (s1\<lparr>Zap := (Zap s1)\<lparr>entries := entries (Zap s1) @
             map (\<lambda>e. \<lparr>Level = ErrorLevel, Message = Error_text e, Fields = []\<rparr>) (Errors (Ctx s1))\<rparr>\<rparr>) \<and>
         OnLevel lvl layout in_UTC next s =
           Returned (s1\<lparr>Zap := (Zap s1)\<lparr>entries := entries (Zap s1) @
             map (\<lambda>e. \<lparr>Level = ErrorLevel, Message = Error_text e, Fields = []\<rparr>) (Errors (Ctx s1))\<rparr>\<rparr>)"
  using assms
  by (simp add: Logger_def OnLevel_def Let_def log_errors_eq Errors_texts_def comp_def)

theorem errors_logged_one_by_one_witness:
  "chain_errors sample_state =
     (sample_state\<lparr>Ctx := sample_context\<lparr>Errors := [ErrorString ''error1'', ErrorString ''error2''],
                        Writer := \<lparr>status = 500, header_written = True, body_out = ''null''\<rparr>\<rparr>,
        Clock := 1005\<rparr>, None) \<and>
   Logger [] chain_errors sample_state =
     Returned (sample_state\<lparr>Ctx := sample_context\<lparr>Errors := [ErrorString ''error1'', ErrorString ''error2''],
                        Writer := \<lparr>status = 500, header_written = True, body_out = ''null''\<rparr>\<rparr>,
        Clock := 1005,
        Zap := info_sink\<lparr>entries := [\<lparr>Level = ErrorLevel, Message = ''error1'', Fields = []\<rparr>,
                                      \<lparr>Level = ErrorLevel, Message = ''error2'', Fields = []\<rparr>]\<rparr>\<rparr>) \<and>
   OnLevel InfoLevel RFC3339 True chain_errors sample_state =
     Returned (sample_state\<lparr>Ctx := sample_context\<lparr>Errors := [ErrorString ''error1'', ErrorString ''error2''],
                        Writer := \<lparr>status = 500, header_written = True, body_out = ''null''\<rparr>\<rparr>,
        Clock := 1005,
        Zap := info_sink\<lparr>entries := [\<lparr>Level = ErrorLevel, Message = ''error1'', Fields = []\<rparr>,
                                      \<lparr>Level = ErrorLevel, Message = ''error2'', Fields = []\<rparr>]\<rparr>\<rparr>)"
proof -
  have a: "chain_errors sample_state =
     (sample_state\<lparr>Ctx := sample_context\<lparr>Errors := [ErrorString ''error1'', ErrorString ''error2''],
                        Writer := \<lparr>status = 500, header_written = True, body_out = ''null''\<rparr>\<rparr>,
        Clock := 1005\<rparr>, None)"
    by (simp add: chain_errors_def sample_state_def sample_context_def)
  show ?thesis
    using errors_logged_one_by_one [where ?next = chain_errors and s = sample_state
        and ?s1.0 = "sample_state\<lparr>Ctx := sample_context\<lparr>Errors := [ErrorString ''error1'', ErrorString ''error2''],
                        Writer := \<lparr>status = 500, header_written = True, body_out = ''null''\<rparr>\<rparr>,
        Clock := 1005\<rparr>" and opts = "[]" and lvl = InfoLevel and layout = RFC3339 and in_UTC = True] a
    by (simp add: sample_state_def info_sink_def)
qed

text \<open>
  Claim C8. The message and the path field of the success record are the path the
  request had before the chain ran, whatever the chain did to the live request; the
  handler built from options records the query the same way. The handler for a chosen
  level writes such a record when the sink accepts the level and nothing otherwise.
\<close>

theorem logged_path_is_captured_path:
  assumes "next s = (s1, None)" and "Errors (Ctx s1) = []"
  shows "(\<exists>e. Logger opts next s =
                Returned (s1\<lparr>Zap := (Zap s1)\<lparr>entries := entries (Zap s1) @ [e]\<rparr>\<rparr>) \<and>
              Message e = Path (URL (Request (Ctx s))) \<and>
              Fields e ! 2 = (''path'', StringV (Path (URL (Request (Ctx s))))) \<and>
              Fields e ! 3 = (''query'', StringV (RawQuery (URL (Request (Ctx s)))))) \<and>
         (Enabled (Zap s1) lvl \<longrightarrow>
            (\<exists>e. OnLevel lvl layout in_UTC next s =
                    Returned (s1\<lparr>Zap := (Zap s1)\<lparr>entries := entries (Zap s1) @ [e]\<rparr>\<rparr>) \<and>
                  Message e = Path (URL (Request (Ctx s))) \<and>
                  Fields e ! 2 = (''path'', StringV (Path (URL (Request (Ctx s))))))) \<and>
         (\<not> Enabled (Zap s1) lvl \<longrightarrow> OnLevel lvl layout in_UTC next s = Returned s1)"
proof (intro conjI impI)
  let ?e = "\<lparr>Level = InfoLevel, Message = Path (URL (Request (Ctx s))),
               Fields = [(''status'', IntV (status (Writer (Ctx s1)))),
                         (''method'', StringV (Method (Request (Ctx s1)))),
                         (''path'', StringV (Path (URL (Request (Ctx s))))),
                         (''query'', StringV (RawQuery (URL (Request (Ctx s))))),
                         (''ip'', StringV (ClientIP (Ctx s1))),
                         (''user-agent'', StringV (UserAgent (Request (Ctx s1)))),
                         (''time'', TimeStringV (timeFormat (apply_opts default_Config opts))
                                      (if utc (apply_opts default_Config opts)
                                       then UTC_of (Now s1) else Now s1)),
                         (''latency'', DurationV (Sub (Now s1) (Now s)))]
                        @ map (\<lambda>field. field (Ctx s1))
                            (customFields (apply_opts default_Config opts))\<rparr>"
  have "Logger opts next s =
          Returned (s1\<lparr>Zap := (Zap s1)\<lparr>entries := entries (Zap s1) @ [?e]\<rparr>\<rparr>)"
    by (rule Logger_success [where ?next = "next" and s = s and ?s1.0 = s1, OF assms])
  then show "\<exists>e. Logger opts next s =
                Returned (s1\<lparr>Zap := (Zap s1)\<lparr>entries := entries (Zap s1) @ [e]\<rparr>\<rparr>) \<and>
              Message e = Path (URL (Request (Ctx s))) \<and>
              Fields e ! 2 = (''path'', StringV (Path (URL (Request (Ctx s))))) \<and>
              Fields e ! 3 = (''query'', StringV (RawQuery (URL (Request (Ctx s)))))"
    by (intro exI [of _ ?e]) simp
next
  assume en: "Enabled (Zap s1) lvl"
  let ?e = "\<lparr>Level = lvl, Message = Path (URL (Request (Ctx s))),
               Fields = [(''status'', IntV (status (Writer (Ctx s1)))),
                         (''method'', StringV (Method (Request (Ctx s1)))),
                         (''path'', StringV (Path (URL (Request (Ctx s))))),
                         (''ip'', StringV (ClientIP (Ctx s1))),
                         (''user-agent'', StringV (UserAgent (Request (Ctx s1)))),
                         (''time'', TimeStringV layout
                                      (if in_UTC then UTC_of (Now s1) else Now s1)),
                         (''latency'', DurationV (Sub (Now s1) (Now s)))]\<rparr>"
  have "OnLevel lvl layout in_UTC next s =
          Returned (s1\<lparr>Zap := (Zap s1)\<lparr>entries := entries (Zap s1) @ [?e]\<rparr>\<rparr>)"
    using OnLevel_success [where ?next = "next" and s = s and ?s1.0 = s1, OF assms] en
    by simp
  then show "\<exists>e. OnLevel lvl layout in_UTC next s =
                    Returned (s1\<lparr>Zap := (Zap s1)\<lparr>entries := entries (Zap s1) @ [e]\<rparr>\<rparr>) \<and>
                  Message e = Path (URL (Request (Ctx s))) \<and>
                  Fields e ! 2 = (''path'', StringV (Path (URL (Request (Ctx s)))))"
    by (intro exI [of _ ?e]) simp
next
  assume "\<not> Enabled (Zap s1) lvl"
  then show "OnLevel lvl layout in_UTC next s = Returned s1"
    by (simp add: OnLevel_success [where ?next = "next" and s = s and ?s1.0 = s1, OF assms])
qed

theorem logged_path_is_captured_path_witness:
  "chain_rewrite sample_state = (after_rewrite, None) \<and>
   Errors (Ctx after_rewrite) = [] \<and>
   Path (URL (Request (Ctx after_rewrite))) = ''/internal'' \<and>
   Enabled (Zap after_rewrite) InfoLevel \<and>
   (\<exists>e. Logger [] chain_rewrite sample_state =
           Returned (after_rewrite\<lparr>Zap := info_sink\<lparr>entries := [e]\<rparr>\<rparr>) \<and>
         Message e = ''/test'' \<and> Fields e ! 2 = (''path'', StringV ''/test'') \<and>
         Fields e ! 3 = (''query'', StringV ''a=1'')) \<and>
   (\<exists>e. OnLevel InfoLevel RFC3339 True chain_rewrite sample_state =
           Returned (after_rewrite\<lparr>Zap := info_sink\<lparr>entries := [e]\<rparr>\<rparr>) \<and>
         Message e = ''/test'' \<and> Fields e ! 2 = (''path'', StringV ''/test''))"
proof -
  have b: "Errors (Ctx after_rewrite) = []"
    by (simp add: after_rewrite_def sample_context_def)
  have c: "Zap after_rewrite = info_sink" "entries info_sink = []" "Enabled info_sink InfoLevel"
    "Path (URL (Request (Ctx sample_state))) = ''/test''"
    "RawQuery (URL (Request (Ctx sample_state))) = ''a=1''"
    "Path (URL (Request (Ctx after_rewrite))) = ''/internal''"
    by (simp_all add: after_rewrite_def info_sink_def sample_state_def sample_context_def
        sample_request_def)
  show ?thesis
    using logged_path_is_captured_path [where ?next = chain_rewrite and s = sample_state
        and ?s1.0 = after_rewrite and opts = "[]" and lvl = InfoLevel and layout = RFC3339
        and in_UTC = True, OF chain_rewrite_sample b]
      chain_rewrite_sample b
    by (simp add: c)
qed

text \<open>
  Claim C4, as stated, at a sample request: the handler for a chosen level writes a
  success record of seven fields, with no query field between path and ip, although
  the request carries the query \<^verbatim>\<open>a=1\<close>.
\<close>

theorem OnLevel_record_without_query:
  "RawQuery (URL (Request (Ctx sample_state))) = ''a=1'' \<and>
   OnLevel InfoLevel RFC3339 True chain_ok sample_state =
     Returned (after_ok (info_sink\<lparr>entries :=
       [\<lparr>Level = InfoLevel, Message = ''/test'',
         Fields = [(''status'', IntV 204),
                   (''method'', StringV ''GET''),
                   (''path'', StringV ''/test''),
                   (''ip'', StringV ''192.0.2.1''),
                   (''user-agent'', StringV ''curl''),
                   (''time'', TimeStringV RFC3339 \<lparr>instant = 1005, in_utc = True\<rparr>),
                   (''latency'', DurationV 5)]\<rparr>]\<rparr>))"
  using OnLevel_success [where ?next = chain_ok and s = sample_state
        and ?s1.0 = "after_ok info_sink" and lvl = InfoLevel and layout = RFC3339
        and in_UTC = True, OF chain_ok_sample]
  by (simp add: after_ok_def sample_state_def sample_context_def sample_request_def info_sink_def
      ClientIP_def UserAgent_def Now_def UTC_of_def Sub_def)

text \<open>
  Claim C4, amended. For a request whose chain returns with an empty error list: the
  handler built from options hands the sink exactly one Info record, message the
  captured path, fields status, method, path, query, ip, user-agent, time, latency and
  then the custom fields in declaration order. The handler for a chosen level, when the
  sink accepts the level, writes exactly one record at that level with the fields
  status, method, path, ip, user-agent, time, latency (no query, no custom fields), and
  nothing when the sink refuses the level.
\<close>

theorem success_record_fields:
  assumes "next s = (s1, None)" and "Errors (Ctx s1) = []"
  shows "Logger opts next s =
           Returned (s1\<lparr>Zap := (Zap s1)\<lparr>entries := entries (Zap s1) @
             [\<lparr>Level = InfoLevel, Message = Path (URL (Request (Ctx s))),
               Fields = [(''status'', IntV (status (Writer (Ctx s1)))),
                         (''method'', StringV (Method (Request (Ctx s1)))),
                         (''path'', StringV (Path (URL (Request (Ctx s))))),
                         (''query'', StringV (RawQuery (URL (Request (Ctx s))))),
                         (''ip'', StringV (ClientIP (Ctx s1))),
                         (''user-agent'', StringV (UserAgent (Request (Ctx s1)))),
                         (''time'', TimeStringV (timeFormat (apply_opts default_Config opts))
                                      (if utc (apply_opts default_Config opts)
                                       then UTC_of (Now s1) else Now s1)),
                         (''latency'', DurationV (Sub (Now s1) (Now s)))]
                        @ map (\<lambda>field. field (Ctx s1))
                            (customFields (apply_opts default_Config opts))\<rparr>]\<rparr>\<rparr>) \<and>
         (Enabled (Zap s1) lvl \<longrightarrow>
            OnLevel lvl layout in_UTC next s =
              Returned (s1\<lparr>Zap := (Zap s1)\<lparr>entries := entries (Zap s1) @
                [\<lparr>Level = lvl, Message = Path (URL (Request (Ctx s))),
                  Fields = [(''status'', IntV (status (Writer (Ctx s1)))),
                            (''method'', StringV (Method (Request (Ctx s1)))),
                            (''path'', StringV (Path (URL (Request (Ctx s))))),
                            (''ip'', StringV (ClientIP (Ctx s1))),
                            (''user-agent'', StringV (UserAgent (Request (Ctx s1)))),
                            (''time'', TimeStringV layout
                                         (if in_UTC then UTC_of (Now s1) else Now s1)),
                            (''latency'', DurationV (Sub (Now s1) (Now s)))]\<rparr>]\<rparr>\<rparr>)) \<and>
         (\<not> Enabled (Zap s1) lvl \<longrightarrow> OnLevel lvl layout in_UTC next s = Returned s1)"
proof (intro conjI impI)
  show "Logger opts next s =
           Returned (s1\<lparr>Zap := (Zap s1)\<lparr>entries := entries (Zap s1) @
             [\<lparr>Level = InfoLevel, Message = Path (URL (Request (Ctx s))),
               Fields = [(''status'', IntV (status (Writer (Ctx s1)))),
                         (''method'', StringV (Method (Request (Ctx s1)))),
                         (''path'', StringV (Path (URL (Request (Ctx s))))),
                         (''query'', StringV (RawQuery (URL (Request (Ctx s))))),
                         (''ip'', StringV (ClientIP (Ctx s1))),
                         (''user-agent'', StringV (UserAgent (Request (Ctx s1)))),
                         (''time'', TimeStringV (timeFormat (apply_opts default_Config opts))
                                      (if utc (apply_opts default_Config opts)
                                       then UTC_of (Now s1) else Now s1)),
                         (''latency'', DurationV (Sub (Now s1) (Now s)))]
                        @ map (\<lambda>field. field (Ctx s1))
                            (customFields (apply_opts default_Config opts))\<rparr>]\<rparr>\<rparr>)"
    by (rule Logger_success [where ?next = "next" and s = s and ?s1.0 = s1, OF assms])
next
  assume "Enabled (Zap s1) lvl"
  then show "OnLevel lvl layout in_UTC next s =
              Returned (s1\<lparr>Zap := (Zap s1)\<lparr>entries := entries (Zap s1) @
                [\<lparr>Level = lvl, Message = Path (URL (Request (Ctx s))),
                  Fields = [(''status'', IntV (status (Writer (Ctx s1)))),
                            (''method'', StringV (Method (Request (Ctx s1)))),
                            (''path'', StringV (Path (URL (Request (Ctx s))))),
                            (''ip'', StringV (ClientIP (Ctx s1))),
                            (''user-agent'', StringV (UserAgent (Request (Ctx s1)))),
                            (''time'', TimeStringV layout
                                         (if in_UTC then UTC_of (Now s1) else Now s1)),
                            (''latency'', DurationV (Sub (Now s1) (Now s)))]\<rparr>]\<rparr>\<rparr>)"
    using OnLevel_success [where ?next = "next" and s = s and ?s1.0 = s1, OF assms] by simp
next
  assume "\<not> Enabled (Zap s1) lvl"
  then show "OnLevel lvl layout in_UTC next s = Returned s1"
    using OnLevel_success [where ?next = "next" and s = s and ?s1.0 = s1, OF assms] by simp
qed

theorem success_record_fields_witness:
  "chain_ok sample_state = (after_ok info_sink, None) \<and>
   Errors (Ctx (after_ok info_sink)) = [] \<and>
   Enabled (Zap (after_ok info_sink)) WarnLevel \<and>
   Logger [WithTimeFormat RFC3339, WithUTC True, WithCustomFields [request_id_field]] chain_ok sample_state =
     Returned (after_ok (info_sink\<lparr>entries :=
       [\<lparr>Level = InfoLevel, Message = ''/test'',
         Fields = [(''status'', IntV 204),
                   (''method'', StringV ''GET''),
                   (''path'', StringV ''/test''),
                   (''query'', StringV ''a=1''),
                   (''ip'', StringV ''192.0.2.1''),
                   (''user-agent'', StringV ''curl''),
                   (''time'', TimeStringV RFC3339 \<lparr>instant = 1005, in_utc = True\<rparr>),
                   (''latency'', DurationV 5),
                   (''request_id'', StringV ''1234'')]\<rparr>]\<rparr>)) \<and>
   OnLevel WarnLevel RFC3339 False chain_ok sample_state =
     Returned (after_ok (info_sink\<lparr>entries :=
       [\<lparr>Level = WarnLevel, Message = ''/test'',
         Fields = [(''status'', IntV 204),
                   (''method'', StringV ''GET''),
                   (''path'', StringV ''/test''),
                   (''ip'', StringV ''192.0.2.1''),
                   (''user-agent'', StringV ''curl''),
                   (''time'', TimeStringV RFC3339 \<lparr>instant = 1005, in_utc = False\<rparr>),
                   (''latency'', DurationV 5)]\<rparr>]\<rparr>))"
proof -
  have en: "Enabled (Zap (after_ok info_sink)) WarnLevel"
    by (simp add: after_ok_def info_sink_def)
  show ?thesis
    using success_record_fields [where ?next = chain_ok and s = sample_state
        and ?s1.0 = "after_ok info_sink" and lvl = WarnLevel and layout = RFC3339
        and in_UTC = False
        and opts = "[WithTimeFormat RFC3339, WithUTC True, WithCustomFields [request_id_field]]",
        OF chain_ok_sample after_ok_facts(1)] en chain_ok_sample
    by (simp add: after_ok_def sample_state_def sample_context_def sample_request_def info_sink_def
      ClientIP_def UserAgent_def Now_def UTC_of_def Sub_def apply_opts_def default_Config_def
      WithTimeFormat_def WithUTC_def WithCustomFields_def request_id_field_def)
qed

text \<open>
  Claim C9, as stated, at a sample request: with a sink whose check refuses Info, the
  handler built from options calls the eight field constructors and the custom field
  function and then the sink's Info with the nine fields; its calls contain no check.
\<close>

theorem Logger_builds_fields_unchecked:
  "zap_Check (Zap (after_ok error_sink)) InfoLevel ''/test'' = None \<and>
   Logger [WithCustomFields [request_id_field]] chain_ok quiet_state =
     Returned (after_ok (error_sink\<lparr>entries :=
       [\<lparr>Level = InfoLevel, Message = ''/test'',
         Fields = [(''status'', IntV 204),
                   (''method'', StringV ''GET''),
                   (''path'', StringV ''/test''),
                   (''query'', StringV ''a=1''),
                   (''ip'', StringV ''192.0.2.1''),
                   (''user-agent'', StringV ''curl''),
                   (''time'', TimeStringV RFC3339Nano \<lparr>instant = 1005, in_utc = False\<rparr>),
                   (''latency'', DurationV 5),
                   (''request_id'', StringV ''1234'')]\<rparr>]\<rparr>)) \<and>
   snd (Logger_traced [WithCustomFields [request_id_field]] chain_ok quiet_state) =
     [FieldBuilt ''status'', FieldBuilt ''method'', FieldBuilt ''path'', FieldBuilt ''query'',
      FieldBuilt ''ip'', FieldBuilt ''user-agent'', FieldBuilt ''time'', FieldBuilt ''latency'',
      FieldBuilt ''request_id'',
      InfoCalled ''/test'' [''status'', ''method'', ''path'', ''query'', ''ip'', ''user-agent'',
                            ''time'', ''latency'', ''request_id'']]"
proof -
  have tr: "snd (Logger_traced [WithCustomFields [request_id_field]] chain_ok quiet_state) =
     [FieldBuilt ''status'', FieldBuilt ''method'', FieldBuilt ''path'', FieldBuilt ''query'',
      FieldBuilt ''ip'', FieldBuilt ''user-agent'', FieldBuilt ''time'', FieldBuilt ''latency'',
      FieldBuilt ''request_id'',
      InfoCalled ''/test'' [''status'', ''method'', ''path'', ''query'', ''ip'', ''user-agent'',
                            ''time'', ''latency'', ''request_id'']]"
    using Logger_traced_success [where ?next = chain_ok and s = quiet_state
        and ?s1.0 = "after_ok error_sink" and opts = "[WithCustomFields [request_id_field]]",
        OF chain_ok_quiet after_ok_facts(1)]
    by (simp add: apply_opts_def default_Config_def WithCustomFields_def request_id_field_def
        quiet_state_def sample_context_def sample_request_def)
  show ?thesis
    using Logger_success [where ?next = chain_ok and s = quiet_state
        and ?s1.0 = "after_ok error_sink" and opts = "[WithCustomFields [request_id_field]]",
        OF chain_ok_quiet] tr
    by (simp add: zap_Check_def after_ok_def quiet_state_def sample_context_def sample_request_def
      error_sink_def ClientIP_def UserAgent_def Now_def UTC_of_def Sub_def apply_opts_def
      default_Config_def WithCustomFields_def request_id_field_def)
qed

text \<open>
  Claim C9, amended. On the success branch the handler for a chosen level calls the
  sink's check first. When the check refuses, that call is the only one: no field
  constructor is called and nothing is written. When the check yields an entry, the
  seven field constructors are called after the check and the entry is written once
  with these fields. The handler built from options has no such check: its calls are
  the eight field constructors, the custom field functions and then the sink's Info.
  The call-by-call handlers have the outcomes of the handlers themselves.
\<close>

theorem level_check_before_fields:
  assumes "next s = (s1, None)" and "Errors (Ctx s1) = []"
  shows "(zap_Check (Zap s1) lvl (Path (URL (Request (Ctx s)))) = None \<longrightarrow>
            OnLevel_traced lvl layout in_UTC next s =
              (Returned s1, [Checked lvl (Path (URL (Request (Ctx s))))])) \<and>
         (\<forall>ce. zap_Check (Zap s1) lvl (Path (URL (Request (Ctx s)))) = Some ce \<longrightarrow>
            (\<exists>fs. length fs = 7 \<and>
               OnLevel_traced lvl layout in_UTC next s =
                 (Returned (s1\<lparr>Zap := ce_Write (Zap s1) ce fs\<rparr>),
                  Checked lvl (Path (URL (Request (Ctx s))))
                    # map (\<lambda>f. FieldBuilt (fst f)) fs
                    @ [Written (fst ce) (snd ce) (map fst fs)]))) \<and>
         (\<exists>fs. length fs = 8 + length (customFields (apply_opts default_Config opts)) \<and>
            Logger_traced opts next s =
              (Returned (s1\<lparr>Zap := zap_Info (Zap s1) (Path (URL (Request (Ctx s)))) fs\<rparr>),
               map (\<lambda>f. FieldBuilt (fst f)) fs
                 @ [InfoCalled (Path (URL (Request (Ctx s)))) (map fst fs)])) \<and>
         fst (OnLevel_traced lvl layout in_UTC next s) = OnLevel lvl layout in_UTC next s \<and>
         fst (Logger_traced opts next s) = Logger opts next s"
proof (intro conjI impI allI)
  assume "zap_Check (Zap s1) lvl (Path (URL (Request (Ctx s)))) = None"
  with assms show "OnLevel_traced lvl layout in_UTC next s =
              (Returned s1, [Checked lvl (Path (URL (Request (Ctx s))))])"
    by (simp add: OnLevel_traced_def Let_def check_step_def)
next
  fix ce
  assume c: "zap_Check (Zap s1) lvl (Path (URL (Request (Ctx s)))) = Some ce"
  let ?fs = "[(''status'', IntV (status (Writer (Ctx s1)))),
              (''method'', StringV (Method (Request (Ctx s1)))),
              (''path'', StringV (Path (URL (Request (Ctx s))))),
              (''ip'', StringV (ClientIP (Ctx s1))),
              (''user-agent'', StringV (UserAgent (Request (Ctx s1)))),
              (''time'', TimeStringV layout (if in_UTC then UTC_of (Now s1) else Now s1)),
              (''latency'', DurationV (Sub (Now s1) (Now s)))]"
  have "OnLevel_traced lvl layout in_UTC next s =
          (Returned (s1\<lparr>Zap := ce_Write (Zap s1) ce ?fs\<rparr>),
           Checked lvl (Path (URL (Request (Ctx s))))
             # map (\<lambda>f. FieldBuilt (fst f)) ?fs
             @ [Written (fst ce) (snd ce) (map fst ?fs)])"
    using assms c
    by (simp add: OnLevel_traced_def Let_def check_step_def build_fields_eq write_step_def)
  then show "\<exists>fs. length fs = 7 \<and>
               OnLevel_traced lvl layout in_UTC next s =
                 (Returned (s1\<lparr>Zap := ce_Write (Zap s1) ce fs\<rparr>),
                  Checked lvl (Path (URL (Request (Ctx s))))
                    # map (\<lambda>f. FieldBuilt (fst f)) fs
                    @ [Written (fst ce) (snd ce) (map fst fs)])"
    by (intro exI [of _ ?fs]) simp
next
  let ?fs = "[(''status'', IntV (status (Writer (Ctx s1)))),
              (''method'', StringV (Method (Request (Ctx s1)))),
              (''path'', StringV (Path (URL (Request (Ctx s))))),
              (''query'', StringV (RawQuery (URL (Request (Ctx s))))),
              (''ip'', StringV (ClientIP (Ctx s1))),
              (''user-agent'', StringV (UserAgent (Request (Ctx s1)))),
              (''time'', TimeStringV (timeFormat (apply_opts default_Config opts))
                           (if utc (apply_opts default_Config opts)
                            then UTC_of (Now s1) else Now s1)),
              (''latency'', DurationV (Sub (Now s1) (Now s)))]
             @ map (\<lambda>field. field (Ctx s1)) (customFields (apply_opts default_Config opts))"
  have "Logger_traced opts next s =
          (Returned (s1\<lparr>Zap := zap_Info (Zap s1) (Path (URL (Request (Ctx s)))) ?fs\<rparr>),
           map (\<lambda>f. FieldBuilt (fst f)) ?fs
             @ [InfoCalled (Path (URL (Request (Ctx s)))) (map fst ?fs)])"
    using assms
    by (simp add: Logger_traced_def Let_def build_fields_eq info_step_def)
  then show "\<exists>fs. length fs = 8 + length (customFields (apply_opts default_Config opts)) \<and>
            Logger_traced opts next s =
              (Returned (s1\<lparr>Zap := zap_Info (Zap s1) (Path (URL (Request (Ctx s)))) fs\<rparr>),
               map (\<lambda>f. FieldBuilt (fst f)) fs
                 @ [InfoCalled (Path (URL (Request (Ctx s)))) (map fst fs)])"
    by (intro exI [of _ ?fs]) simp
next
  show "fst (OnLevel_traced lvl layout in_UTC next s) = OnLevel lvl layout in_UTC next s"
    by (rule OnLevel_traced_outcome)
next
  show "fst (Logger_traced opts next s) = Logger opts next s"
    by (rule Logger_traced_outcome)
qed

theorem level_check_before_fields_witness:
  "chain_ok quiet_state = (after_ok error_sink, None) \<and>
   Errors (Ctx (after_ok error_sink)) = [] \<and>
   zap_Check (Zap (after_ok error_sink)) InfoLevel ''/test'' = None \<and>
   OnLevel_traced InfoLevel RFC3339 True chain_ok quiet_state =
     (Returned (after_ok error_sink), [Checked InfoLevel ''/test'']) \<and>
   zap_Check (Zap (after_ok error_sink)) ErrorLevel ''/test'' = Some (ErrorLevel, ''/test'') \<and>
   (\<exists>fs. length fs = 7 \<and>
      OnLevel_traced ErrorLevel RFC3339 True chain_ok quiet_state =
        (Returned (after_ok (error_sink\<lparr>entries :=
           [\<lparr>Level = ErrorLevel, Message = ''/test'', Fields = fs\<rparr>]\<rparr>)),
         Checked ErrorLevel ''/test'' # map (\<lambda>f. FieldBuilt (fst f)) fs
           @ [Written ErrorLevel ''/test'' (map fst fs)])) \<and>
   (\<exists>fs. length fs = 8 \<and>
      Logger_traced [] chain_ok quiet_state =
        (Returned (after_ok (error_sink\<lparr>entries :=
           [\<lparr>Level = InfoLevel, Message = ''/test'', Fields = fs\<rparr>]\<rparr>)),
         map (\<lambda>f. FieldBuilt (fst f)) fs @ [InfoCalled ''/test'' (map fst fs)]))"
proof -
  have p: "Path (URL (Request (Ctx quiet_state))) = ''/test''"
    by (simp add: quiet_state_def sample_context_def sample_request_def)
  have c1: "zap_Check (Zap (after_ok error_sink)) InfoLevel ''/test'' = None"
    by (simp add: zap_Check_def after_ok_def error_sink_def)
  have c2: "zap_Check (Zap (after_ok error_sink)) ErrorLevel ''/test'' = Some (ErrorLevel, ''/test'')"
    by (simp add: zap_Check_def after_ok_def error_sink_def)
  have z: "after_ok error_sink\<lparr>Zap := lg\<rparr> = after_ok lg" for lg
    by (simp add: after_ok_def)
  have e: "entries error_sink = []" by (simp add: error_sink_def)
  show ?thesis
    using level_check_before_fields [where ?next = chain_ok and s = quiet_state
        and ?s1.0 = "after_ok error_sink" and lvl = InfoLevel and layout = RFC3339
        and in_UTC = True and opts = "[]", OF chain_ok_quiet after_ok_facts(1)]
      level_check_before_fields [where ?next = chain_ok and s = quiet_state
        and ?s1.0 = "after_ok error_sink" and lvl = ErrorLevel and layout = RFC3339
        and in_UTC = True and opts = "[]", OF chain_ok_quiet after_ok_facts(1)]
      chain_ok_quiet c1 c2
    by (simp add: p after_ok_facts(1,2) z e ce_Write_def zap_Info_def zap_Log_def apply_opts_def
        default_Config_def)
qed

section \<open>The access logger with a configuration value: properties\<close>

text \<open>
  Claim C3. When, on the request as it arrives, the skipper predicate is set and true,
  or the path is one of the skip paths, or the path matches one of the skip patterns,
  the handler runs the chain and adds nothing: its outcome is the chain's own state
  (or the chain's panic). The condition reads the state before the chain runs.
\<close>

theorem skipped_request_not_logged:
  assumes "(\<exists>p. Skipper conf = Some p \<and> p (Ctx s)) \<or>
           Path (URL (Request (Ctx s))) \<in> set (SkipPaths conf) \<or>
           (\<exists>r \<in> set (SkipPathRegexps conf). r (Path (URL (Request (Ctx s)))))"
    and "next s = (s1, r)"
  shows "GinzapWithConfig conf next s = (case r of None \<Rightarrow> Returned s1 | Some p \<Rightarrow> Panicked p s1)"
proof -
  have "skip_request conf (Ctx s) (Path (URL (Request (Ctx s))))"
    using assms(1) by (simp add: skip_request_iff)
  with assms(2) show ?thesis
    by (simp add: GinzapWithConfig_def Let_def split: option.splits)
qed

theorem skipped_request_not_logged_witness:
  "Path (URL (Request (Ctx no_log_state))) \<in> set (SkipPaths (sample_config\<lparr>SkipPaths := [''/no_log'']\<rparr>)) \<and>
   (\<exists>p. Skipper (sample_config\<lparr>Skipper := Some no_log_skipper\<rparr>) = Some p \<and> p (Ctx no_log_state)) \<and>
   (\<exists>r \<in> set (SkipPathRegexps (sample_config\<lparr>SkipPathRegexps := [no_prefix_pattern]\<rparr>)).
        r (Path (URL (Request (Ctx no_log_state))))) \<and>
   GinzapWithConfig (sample_config\<lparr>SkipPaths := [''/no_log'']\<rparr>) chain_ok no_log_state =
     Returned (fst (chain_ok no_log_state)) \<and>
   GinzapWithConfig (sample_config\<lparr>Skipper := Some no_log_skipper\<rparr>) chain_ok no_log_state =
     Returned (fst (chain_ok no_log_state)) \<and>
   GinzapWithConfig (sample_config\<lparr>SkipPathRegexps := [no_prefix_pattern]\<rparr>) chain_ok no_log_state =
     Returned (fst (chain_ok no_log_state)) \<and>
   entries (Zap (fst (chain_ok no_log_state))) = [] \<and>
   status (Writer (Ctx (fst (chain_ok no_log_state)))) = 204"
proof -
  have p: "Path (URL (Request (Ctx no_log_state))) = ''/no_log''"
    by (simp add: no_log_state_def sample_context_def)
  have a: "Path (URL (Request (Ctx no_log_state))) \<in> set (SkipPaths (sample_config\<lparr>SkipPaths := [''/no_log'']\<rparr>))"
    by (simp add: p)
  have b: "\<exists>p. Skipper (sample_config\<lparr>Skipper := Some no_log_skipper\<rparr>) = Some p \<and> p (Ctx no_log_state)"
    by (simp add: no_log_skipper_def p)
  have c: "\<exists>r \<in> set (SkipPathRegexps (sample_config\<lparr>SkipPathRegexps := [no_prefix_pattern]\<rparr>)).
        r (Path (URL (Request (Ctx no_log_state))))"
    by (simp add: no_prefix_pattern_def p)
  have n: "chain_ok no_log_state = (fst (chain_ok no_log_state), None)"
    by (simp add: chain_ok_def)
  have e: "entries (Zap (fst (chain_ok no_log_state))) = []"
    "status (Writer (Ctx (fst (chain_ok no_log_state)))) = 204"
    by (simp_all add: chain_ok_def no_log_state_def info_sink_def)
  show ?thesis
    using skipped_request_not_logged [where conf = "sample_config\<lparr>SkipPaths := [''/no_log'']\<rparr>"
        and s = no_log_state and ?next = chain_ok and ?s1.0 = "fst (chain_ok no_log_state)"
        and r = None, OF disjI2 [OF disjI1 [OF a]] n]
      skipped_request_not_logged [where conf = "sample_config\<lparr>Skipper := Some no_log_skipper\<rparr>"
        and s = no_log_state and ?next = chain_ok and ?s1.0 = "fst (chain_ok no_log_state)"
        and r = None, OF disjI1 [OF b] n]
      skipped_request_not_logged [where conf = "sample_config\<lparr>SkipPathRegexps := [no_prefix_pattern]\<rparr>"
        and s = no_log_state and ?next = chain_ok and ?s1.0 = "fst (chain_ok no_log_state)"
        and r = None, OF disjI2 [OF disjI2 [OF c]] n]
      a b c e
    by simp
qed

text \<open>
  Claim C5. With error aggregation on, a request that is not skipped and whose chain
  returns with a non-empty error list gets exactly one more record: Error level, no
  fields, and as message the lines \<^verbatim>\<open>Error #<index>: <text>\<close>, one per error in
  registration order, each ended by a newline, the index counting from 1 and written
  with two digits below 100.
\<close>

theorem errors_logged_once:
  assumes "next s = (s1, None)"
    and "\<not> skip_request conf (Ctx s) (Path (URL (Request (Ctx s))))"
    and "Errors (Ctx s1) \<noteq> []"
    and "LogErrorsOnce conf"
  shows "GinzapWithConfig conf next s =
           Returned (s1\<lparr>Zap := (Zap s1)\<lparr>entries := entries (Zap s1) @
             [\<lparr>Level = ErrorLevel,
               Message = concat (map (\<lambda>(i, e). ''Error #'' @ index2 i @ '': '' @ Error_text e @ [CHR 0x0A])
                                     (zip [1..<Suc (length (Errors (Ctx s1)))] (Errors (Ctx s1)))),
               Fields = []\<rparr>]\<rparr>\<rparr>) \<and>
         (i < 100 \<longrightarrow> length (index2 i) = 2)"
proof -
  have m: "errors_once_message (Errors_texts (Ctx s1)) =
             concat (map (\<lambda>(i, e). ''Error #'' @ index2 i @ '': '' @ Error_text e @ [CHR 0x0A])
                         (zip [1..<Suc (length (Errors (Ctx s1)))] (Errors (Ctx s1))))"
    by (simp add: errors_once_message_def errors_once_from_concat Errors_texts_def zip_map2
        case_prod_unfold comp_def)
  show ?thesis
    using assms by (simp add: GinzapWithConfig_def Let_def zap_Error_def zap_Log_def m index2_two_digits)
qed

theorem errors_logged_once_witness:
  "chain_errors sample_state = (after_errors, None) \<and>
   \<not> skip_request (sample_config\<lparr>LogErrorsOnce := True\<rparr>) (Ctx sample_state) (Path (URL (Request (Ctx sample_state)))) \<and>
   Errors (Ctx after_errors) = [ErrorString ''error1'', ErrorString ''error2''] \<and>
   LogErrorsOnce (sample_config\<lparr>LogErrorsOnce := True\<rparr>) \<and>
   GinzapWithConfig (sample_config\<lparr>LogErrorsOnce := True\<rparr>) chain_errors sample_state =
     Returned (after_errors\<lparr>Zap := info_sink\<lparr>entries :=
       [\<lparr>Level = ErrorLevel,
         Message = ''Error #01: error1'' @ [CHR 0x0A] @ ''Error #02: error2'' @ [CHR 0x0A],
         Fields = []\<rparr>]\<rparr>\<rparr>) \<and>
   length (index2 7) = 2"
proof -
  have a: "\<not> skip_request (sample_config\<lparr>LogErrorsOnce := True\<rparr>) (Ctx sample_state) (Path (URL (Request (Ctx sample_state))))"
    by (simp add: skip_request_def sample_config_def)
  have b: "Errors (Ctx after_errors) = [ErrorString ''error1'', ErrorString ''error2'']"
    by (simp add: after_errors_def sample_context_def)
  have b': "Errors (Ctx after_errors) \<noteq> []" by (simp add: b)
  have c: "LogErrorsOnce (sample_config\<lparr>LogErrorsOnce := True\<rparr>)" by simp
  have d: "index2 (Suc 0) = ''01''" "index2 (Suc (Suc 0)) = ''02''" by code_simp+
  have u: "[1..<3] = [1, 2::nat]" by code_simp
  show ?thesis
    using errors_logged_once [where ?next = chain_errors and s = sample_state
        and ?s1.0 = after_errors and conf = "sample_config\<lparr>LogErrorsOnce := True\<rparr>" and i = 7,
        OF chain_errors_sample a b' c] chain_errors_sample a b c
    by (simp add: b d u after_errors_def info_sink_def)
qed

end
